theory Spec2Isabelle
  imports Main "HOL-Library.AList"
begin

section \<open>Data model of pubsub.go\<close>

text \<open>
  A Go \<^verbatim>\<open>error\<close> result is modelled as \<open>error option\<close>: \<open>None\<close> is \<^verbatim>\<open>nil\<close>.
\<close>

type_synonym error = string

text \<open>
  A handler is a Go function value of type \<^verbatim>\<open>func(...any)\<close>. The dispatcher never looks
  inside one: it stores it and calls it. \<open>hid\<close> names the function value. \<open>herr\<close> is the
  error, if any, that the callback meets while it runs; the signature has no result, so
  that error has no way out of the callback, and no function below reads \<open>herr\<close>.
  Handlers are taken to return to their caller and not to call back into the dispatcher.
\<close>

datatype handler = Handler (hid: nat) (herr: "error option")

text \<open>
  Calling a handler is the only effect of the package that is visible from outside. It is
  recorded as an event carrying the handler and the argument list it was called with
  (the element type \<open>'a\<close> stands for Go's \<^verbatim>\<open>any\<close>).
\<close>

datatype 'a event = Invoke handler "'a list"

text \<open>The struct \<^verbatim>\<open>topic\<close>. A \<^verbatim>\<open>nil\<close> slice and an empty slice are both \<open>[]\<close>.\<close>

record topic =
  name :: string
  handlers :: "handler list"
  once :: bool
  onceEach :: bool
  closed :: bool

text \<open>
  The struct \<^verbatim>\<open>pubsub\<close>. The Go map from names to topic pointers is an association list
  read with \<open>map_of\<close> and written with \<open>AList.update\<close>. Every pointer is stored under one
  key only and never handed out, so a method call on the pointer is modelled by reading
  the topic, computing its new value and writing it back under the same key.
\<close>

record pubsub =
  topics :: "(string \<times> topic) list"

section \<open>Operations on a topic\<close>

definition newTopic :: "string \<Rightarrow> topic" where
  "newTopic n = \<lparr>name = n, handlers = [], once = False, onceEach = False, closed = False\<rparr>"

definition topic_subscribe :: "handler \<Rightarrow> bool \<Rightarrow> bool \<Rightarrow> topic \<Rightarrow> error option \<times> topic" where
  "topic_subscribe h onc each t =
     (if closed t then (None, t)
      else (None, t\<lparr>handlers := handlers t @ [h], once := onc, onceEach := each\<rparr>))"

definition topic_unsubscribe :: "topic \<Rightarrow> error option \<times> topic" where
  "topic_unsubscribe t =
     (if closed t then (None, t)
      else (None, t\<lparr>handlers := [], closed := True\<rparr>))"

text \<open>
  One pass through the body of the \<^verbatim>\<open>range\<close> loop of \<^verbatim>\<open>topic.publish\<close>, for the loop
  variable \<open>h\<close>. It yields the call made, the value of the loop variable at the end of the
  body (\<open>None\<close> is \<^verbatim>\<open>nil\<close>) and the topic. The assignment \<^verbatim>\<open>handler = nil\<close> changes the loop
  variable and nothing else.
\<close>

definition loop_body :: "'a list \<Rightarrow> handler \<Rightarrow> topic \<Rightarrow> 'a event \<times> handler option \<times> topic" where
  "loop_body args h t =
     (let ev = Invoke h args;
          t1 = (if once t then t\<lparr>handlers := []\<rparr> else t);
          v = (if onceEach t1 then None else Some h)
      in (ev, v, t1))"

text \<open>
  The \<^verbatim>\<open>range\<close> loop. Go evaluates the range expression \<^verbatim>\<open>t.handlers\<close> once, before the
  first pass, so the loop runs over that slice (the first argument) whatever the body
  assigns to the field in the meantime.
\<close>

fun range_loop :: "handler list \<Rightarrow> 'a list \<Rightarrow> topic \<Rightarrow> 'a event list \<times> topic" where
  "range_loop [] args t = ([], t)"
| "range_loop (h # hs) args t =
     (case loop_body args h t of
        (ev, v, t1) \<Rightarrow> (case range_loop hs args t1 of (evs, t2) \<Rightarrow> (ev # evs, t2)))"

definition topic_publish :: "'a list \<Rightarrow> bool \<Rightarrow> topic \<Rightarrow> error option \<times> 'a event list \<times> topic" where
  "topic_publish args try_flag t =
     (if closed t then (None, [], t)
      else (case range_loop (handlers t) args t of (evs, t') \<Rightarrow> (None, evs, t')))"

definition topic_close :: "topic \<Rightarrow> error option \<times> topic" where
  "topic_close t =
     (if closed t then (None, t)
      else (None, t\<lparr>handlers := [], closed := True\<rparr>))"

section \<open>Operations on the registry\<close>

definition New :: pubsub where
  "New = \<lparr>topics = []\<rparr>"

definition subscribe :: "string \<Rightarrow> handler \<Rightarrow> bool \<Rightarrow> bool \<Rightarrow> pubsub \<Rightarrow> error option \<times> pubsub" where
  "subscribe tn h onc each p =
     (let t = (case map_of (topics p) tn of Some t0 \<Rightarrow> t0 | None \<Rightarrow> newTopic tn)
      in case topic_subscribe h onc each t of
           (e, t') \<Rightarrow> (e, p\<lparr>topics := AList.update tn t' (topics p)\<rparr>))"

definition Subscribe :: "string \<Rightarrow> handler \<Rightarrow> pubsub \<Rightarrow> error option \<times> pubsub" where
  "Subscribe tn h p = subscribe tn h False False p"

definition SubscribeOnce :: "string \<Rightarrow> handler \<Rightarrow> pubsub \<Rightarrow> error option \<times> pubsub" where
  "SubscribeOnce tn h p = subscribe tn h True False p"

definition SubscribeOnceEach :: "string \<Rightarrow> handler \<Rightarrow> pubsub \<Rightarrow> error option \<times> pubsub" where
  "SubscribeOnceEach tn h p = subscribe tn h True True p"

definition Unsubscribe :: "string \<Rightarrow> pubsub \<Rightarrow> error option \<times> pubsub" where
  "Unsubscribe tn p =
     (case map_of (topics p) tn of
        None \<Rightarrow> (None, p)
      | Some t \<Rightarrow> (case topic_unsubscribe t of
           (e, t') \<Rightarrow> (e, p\<lparr>topics := AList.update tn t' (topics p)\<rparr>)))"

text \<open>
  The loop of \<^verbatim>\<open>UnsubscribeAll\<close> over the map, with its early return. Go leaves the order
  of a map range open; the list order stands for the order the run time picks.
\<close>

fun unsubscribe_each :: "(string \<times> topic) list \<Rightarrow> error option \<times> (string \<times> topic) list" where
  "unsubscribe_each [] = (None, [])"
| "unsubscribe_each ((k, t) # rest) =
     (case topic_unsubscribe t of
        (Some e, t') \<Rightarrow> (Some e, (k, t') # rest)
      | (None, t') \<Rightarrow> (case unsubscribe_each rest of (r, rest') \<Rightarrow> (r, (k, t') # rest')))"

definition UnsubscribeAll :: "pubsub \<Rightarrow> error option \<times> pubsub" where
  "UnsubscribeAll p = (case unsubscribe_each (topics p) of (e, al) \<Rightarrow> (e, p\<lparr>topics := al\<rparr>))"

definition publish :: "string \<Rightarrow> 'a list \<Rightarrow> bool \<Rightarrow> pubsub \<Rightarrow> error option \<times> 'a event list \<times> pubsub" where
  "publish tn args try_flag p =
     (case map_of (topics p) tn of
        None \<Rightarrow> (None, [], p)
      | Some t \<Rightarrow> (case topic_publish args try_flag t of
           (e, evs, t') \<Rightarrow> (e, evs, p\<lparr>topics := AList.update tn t' (topics p)\<rparr>)))"

definition Publish :: "string \<Rightarrow> 'a list \<Rightarrow> pubsub \<Rightarrow> error option \<times> 'a event list \<times> pubsub" where
  "Publish tn args p = publish tn args False p"

definition TryPublish :: "string \<Rightarrow> 'a list \<Rightarrow> pubsub \<Rightarrow> error option \<times> 'a event list \<times> pubsub" where
  "TryPublish tn args p = publish tn args True p"

definition CloseTopic :: "string \<Rightarrow> pubsub \<Rightarrow> error option \<times> pubsub" where
  "CloseTopic tn p =
     (case map_of (topics p) tn of
        None \<Rightarrow> (None, p)
      | Some t \<Rightarrow> (case topic_close t of
           (e, t') \<Rightarrow> (e, p\<lparr>topics := AList.update tn t' (topics p)\<rparr>)))"

fun close_each :: "(string \<times> topic) list \<Rightarrow> error option \<times> (string \<times> topic) list" where
  "close_each [] = (None, [])"
| "close_each ((k, t) # rest) =
     (case topic_close t of
        (Some e, t') \<Rightarrow> (Some e, (k, t') # rest)
      | (None, t') \<Rightarrow> (case close_each rest of (r, rest') \<Rightarrow> (r, (k, t') # rest')))"

definition Shutdown :: "pubsub \<Rightarrow> error option \<times> pubsub" where
  "Shutdown p = (case close_each (topics p) of (e, al) \<Rightarrow> (e, p\<lparr>topics := al\<rparr>))"

section \<open>Sequences of calls\<close>

text \<open>
  A client of the package makes calls of the nine public methods one after the other.
  \<open>perform\<close> makes one call; \<open>run\<close> makes a list of calls and returns, with the final
  state, the log of what each call returned and which handlers it called.
\<close>

datatype 'a call =
    Call_Subscribe string handler
  | Call_SubscribeOnce string handler
  | Call_SubscribeOnceEach string handler
  | Call_Publish string "'a list"
  | Call_TryPublish string "'a list"
  | Call_Unsubscribe string
  | Call_UnsubscribeAll
  | Call_CloseTopic string
  | Call_Shutdown

fun perform :: "'a call \<Rightarrow> pubsub \<Rightarrow> error option \<times> 'a event list \<times> pubsub" where
  "perform (Call_Subscribe tn h) p = (case Subscribe tn h p of (e, p') \<Rightarrow> (e, [], p'))"
| "perform (Call_SubscribeOnce tn h) p = (case SubscribeOnce tn h p of (e, p') \<Rightarrow> (e, [], p'))"
| "perform (Call_SubscribeOnceEach tn h) p = (case SubscribeOnceEach tn h p of (e, p') \<Rightarrow> (e, [], p'))"
| "perform (Call_Publish tn args) p = Publish tn args p"
| "perform (Call_TryPublish tn args) p = TryPublish tn args p"
| "perform (Call_Unsubscribe tn) p = (case Unsubscribe tn p of (e, p') \<Rightarrow> (e, [], p'))"
| "perform Call_UnsubscribeAll p = (case UnsubscribeAll p of (e, p') \<Rightarrow> (e, [], p'))"
| "perform (Call_CloseTopic tn) p = (case CloseTopic tn p of (e, p') \<Rightarrow> (e, [], p'))"
| "perform Call_Shutdown p = (case Shutdown p of (e, p') \<Rightarrow> (e, [], p'))"

fun run :: "'a call list \<Rightarrow> pubsub \<Rightarrow> ('a call \<times> error option \<times> 'a event list) list \<times> pubsub" where
  "run [] p = ([], p)"
| "run (c # cs) p =
     (case perform c p of
        (e, evs, p1) \<Rightarrow> (case run cs p1 of (log, p2) \<Rightarrow> ((c, e, evs) # log, p2)))"

text \<open>The calls that subscribe to a topic name, and the calls that publish on it.\<close>

fun subscribes_to :: "string \<Rightarrow> 'a call \<Rightarrow> bool" where
  "subscribes_to tn (Call_Subscribe n h) = (n = tn)"
| "subscribes_to tn (Call_SubscribeOnce n h) = (n = tn)"
| "subscribes_to tn (Call_SubscribeOnceEach n h) = (n = tn)"
| "subscribes_to tn c = False"

fun publishes_on :: "string \<Rightarrow> 'a call \<Rightarrow> bool" where
  "publishes_on tn (Call_Publish n args) = (n = tn)"
| "publishes_on tn (Call_TryPublish n args) = (n = tn)"
| "publishes_on tn c = False"


text \<open>Looking a topic name up in the registry: the Go expression \<^verbatim>\<open>p.topics[topic]\<close>.\<close>

abbreviation lookup :: "pubsub \<Rightarrow> string \<Rightarrow> topic option" where
  "lookup p tn \<equiv> map_of (topics p) tn"

text \<open>
  The invariant of the data model: a closed topic has no handlers. \<open>pubsub_inv\<close> asks it
  of every topic stored in the registry.
\<close>

definition topic_inv :: "topic \<Rightarrow> bool" where
  "topic_inv t = (closed t \<longrightarrow> handlers t = [])"

definition pubsub_inv :: "pubsub \<Rightarrow> bool" where
  "pubsub_inv p = list_all (\<lambda>(k, t). topic_inv t) (topics p)"



section \<open>Facts about the topic operations\<close>

lemma range_loop_eq:
  "range_loop hs args t =
     (map (\<lambda>h. Invoke h args) hs, if once t \<and> hs \<noteq> [] then t\<lparr>handlers := []\<rparr> else t)"
  by (induction hs arbitrary: t) (simp_all add: loop_body_def Let_def)

lemma topic_publish_eq:
  "topic_publish args try_flag t =
     (None,
      if closed t then [] else map (\<lambda>h. Invoke h args) (handlers t),
      if \<not> closed t \<and> once t \<and> handlers t \<noteq> [] then t\<lparr>handlers := []\<rparr> else t)"
  by (simp add: topic_publish_def range_loop_eq)

text \<open>
  The branch of the loop body for \<^verbatim>\<open>onceEach\<close> assigns to the loop variable only. So when
  \<^verbatim>\<open>once\<close> is not set the loop leaves the topic as it was, whatever \<^verbatim>\<open>onceEach\<close> is; it is
  the branch for \<^verbatim>\<open>once\<close> that empties the collection.
\<close>

lemma range_loop_without_once:
  "\<not> once t \<Longrightarrow> range_loop hs args t = (map (\<lambda>h. Invoke h args) hs, t)"
  by (simp add: range_loop_eq)

lemma handlers_nil_triv: "handlers t = [] \<Longrightarrow> t\<lparr>handlers := []\<rparr> = t"
  by (cases t) simp

lemma range_loop_append:
  "range_loop (xs @ ys) args t =
     (fst (range_loop xs args t) @ fst (range_loop ys args (snd (range_loop xs args t))),
      snd (range_loop ys args (snd (range_loop xs args t))))"
  by (induction xs arbitrary: t) (simp_all add: loop_body_def Let_def case_prod_beta)

section \<open>Facts about the registry operations\<close>

lemma topic_unsubscribe_fst: "fst (topic_unsubscribe t) = None"
  by (simp add: topic_unsubscribe_def)

lemma topic_close_eq: "topic_close t = topic_unsubscribe t"
  by (simp add: topic_close_def topic_unsubscribe_def)

lemma unsubscribe_each_fst: "fst (unsubscribe_each al) = None"
  by (induction al) (auto simp add: topic_unsubscribe_def split: prod.split)

lemma unsubscribe_each_lookup:
  "map_of (snd (unsubscribe_each al)) k = map_option (\<lambda>t. snd (topic_unsubscribe t)) (map_of al k)"
  by (induction al) (auto simp add: topic_unsubscribe_def split: prod.split)

lemma close_each_eq: "close_each al = unsubscribe_each al"
  by (induction al) (auto simp add: topic_close_def topic_unsubscribe_def split: prod.split)

lemma lookup_subscribe:
  "map_of (topics (snd (subscribe tn h onc each p))) k =
     (if k = tn
      then Some (snd (topic_subscribe h onc each
             (case map_of (topics p) tn of Some t0 \<Rightarrow> t0 | None \<Rightarrow> newTopic tn)))
      else map_of (topics p) k)"
  by (simp add: subscribe_def Let_def update_conv' split: prod.split)

lemma subscribe_fst: "fst (subscribe tn h onc each p) = None"
  by (simp add: subscribe_def Let_def topic_subscribe_def split: prod.split)

lemma lookup_Unsubscribe:
  "map_of (topics (snd (Unsubscribe tn p))) k =
     map_option (\<lambda>t. if k = tn then snd (topic_unsubscribe t) else t) (map_of (topics p) k)"
  by (cases "map_of (topics p) k") (auto simp add: Unsubscribe_def update_conv' split: prod.split option.split)

lemma Unsubscribe_fst: "fst (Unsubscribe tn p) = None"
  by (simp add: Unsubscribe_def topic_unsubscribe_def split: prod.split option.split)

lemma lookup_CloseTopic:
  "map_of (topics (snd (CloseTopic tn p))) k =
     map_option (\<lambda>t. if k = tn then snd (topic_unsubscribe t) else t) (map_of (topics p) k)"
  by (cases "map_of (topics p) k") (auto simp add: CloseTopic_def topic_close_eq update_conv' split: prod.split option.split)

lemma CloseTopic_fst: "fst (CloseTopic tn p) = None"
  by (simp add: CloseTopic_def topic_close_def split: prod.split option.split)

lemma lookup_UnsubscribeAll:
  "map_of (topics (snd (UnsubscribeAll p))) k =
     map_option (\<lambda>t. snd (topic_unsubscribe t)) (map_of (topics p) k)"
  using unsubscribe_each_lookup [of "topics p" k]
  by (simp add: UnsubscribeAll_def case_prod_beta)

lemma UnsubscribeAll_fst: "fst (UnsubscribeAll p) = None"
  using unsubscribe_each_fst [of "topics p"]
  by (simp add: UnsubscribeAll_def case_prod_beta)

lemma lookup_Shutdown:
  "map_of (topics (snd (Shutdown p))) k =
     map_option (\<lambda>t. snd (topic_unsubscribe t)) (map_of (topics p) k)"
  using unsubscribe_each_lookup [of "topics p" k]
  by (simp add: Shutdown_def close_each_eq case_prod_beta)

lemma Shutdown_fst: "fst (Shutdown p) = None"
  using unsubscribe_each_fst [of "topics p"]
  by (simp add: Shutdown_def close_each_eq case_prod_beta)

lemma publish_fst: "fst (publish tn args try_flag p) = None"
  by (simp add: publish_def topic_publish_eq split: option.split)

lemma publish_events:
  "fst (snd (publish tn args try_flag p)) =
     (case map_of (topics p) tn of
        None \<Rightarrow> []
      | Some t \<Rightarrow> if closed t then [] else map (\<lambda>h. Invoke h args) (handlers t))"
  by (simp add: publish_def topic_publish_eq split: option.split)

lemma lookup_publish:
  "map_of (topics (snd (snd (publish tn args try_flag p)))) k =
     map_option (\<lambda>t. if k = tn then snd (snd (topic_publish args try_flag t)) else t) (map_of (topics p) k)"
  by (cases "map_of (topics p) k") (auto simp add: publish_def topic_publish_eq update_conv' split: option.split)

lemma lookup_subscribe_same:
  "lookup (snd (subscribe tn h onc each p)) tn =
     Some (snd (topic_subscribe h onc each
       (case lookup p tn of Some t0 \<Rightarrow> t0 | None \<Rightarrow> newTopic tn)))"
  by (simp add: lookup_subscribe)

section \<open>Sequences of calls and one topic name\<close>

lemmas lookup_simps =
  lookup_subscribe lookup_Unsubscribe lookup_CloseTopic lookup_UnsubscribeAll
  lookup_Shutdown lookup_publish

lemma lookup_perform_closed:
  "lookup p tn = Some t \<Longrightarrow> closed t \<Longrightarrow> lookup (snd (snd (perform c p))) tn = Some t"
  by (cases c)
     (auto simp add: Subscribe_def SubscribeOnce_def SubscribeOnceEach_def Publish_def
        TryPublish_def case_prod_beta lookup_simps topic_subscribe_def topic_unsubscribe_def
        topic_publish_eq)

lemma lookup_run_closed:
  "lookup p tn = Some t \<Longrightarrow> closed t \<Longrightarrow> lookup (snd (run cs p)) tn = Some t"
  by (induction cs arbitrary: p) (simp_all add: case_prod_beta lookup_perform_closed)

lemma lookup_perform_absent:
  "lookup p tn = None \<Longrightarrow> \<not> subscribes_to tn c \<Longrightarrow> lookup (snd (snd (perform c p))) tn = None"
  by (cases c)
     (simp_all add: Subscribe_def SubscribeOnce_def SubscribeOnceEach_def Publish_def
        TryPublish_def case_prod_beta lookup_simps)

lemma lookup_run_absent:
  "lookup p tn = None \<Longrightarrow> \<forall>c\<in>set cs. \<not> subscribes_to tn c \<Longrightarrow> lookup (snd (run cs p)) tn = None"
  by (induction cs arbitrary: p) (simp_all add: case_prod_beta lookup_perform_absent)

lemma lookup_perform_present:
  "lookup p tn \<noteq> None \<or> subscribes_to tn c \<Longrightarrow> lookup (snd (snd (perform c p))) tn \<noteq> None"
  by (cases c)
     (auto simp add: Subscribe_def SubscribeOnce_def SubscribeOnceEach_def Publish_def
        TryPublish_def case_prod_beta lookup_simps)

lemma lookup_run_present:
  "lookup p tn \<noteq> None \<or> (\<exists>c\<in>set cs. subscribes_to tn c) \<Longrightarrow> lookup (snd (run cs p)) tn \<noteq> None"
proof (induction cs arbitrary: p)
  case Nil
  then show ?case by simp
next
  case (Cons c cs)
  have "lookup (snd (snd (perform c p))) tn \<noteq> None \<or> (\<exists>c\<in>set cs. subscribes_to tn c)"
    using Cons.prems lookup_perform_present [of p tn c] by auto
  then show ?case
    using Cons.IH [of "snd (snd (perform c p))"] by (simp add: case_prod_beta)
qed

lemma perform_fst: "fst (perform c p) = None"
  by (cases c)
     (simp_all add: Subscribe_def SubscribeOnce_def SubscribeOnceEach_def Publish_def
        TryPublish_def case_prod_beta subscribe_fst Unsubscribe_fst UnsubscribeAll_fst
        CloseTopic_fst Shutdown_fst publish_fst)





lemma closed_perform_events:
  "lookup p tn = Some u \<Longrightarrow> closed u \<Longrightarrow> publishes_on tn c \<Longrightarrow> fst (snd (perform c p)) = []"
  by (cases c) (simp_all add: Publish_def TryPublish_def publish_events)

lemma closed_run_events:
  "lookup p tn = Some u \<Longrightarrow> closed u \<Longrightarrow>
   \<forall>(c, e, evs)\<in>set (fst (run cs p)). publishes_on tn c \<longrightarrow> evs = []"
proof (induction cs arbitrary: p)
  case Nil
  then show ?case by simp
next
  case (Cons c cs)
  have "lookup (snd (snd (perform c p))) tn = Some u"
    using Cons.prems by (rule lookup_perform_closed)
  then have "\<forall>(c, e, evs)\<in>set (fst (run cs (snd (snd (perform c p))))).
               publishes_on tn c \<longrightarrow> evs = []"
    using Cons.prems(2) by (rule Cons.IH)
  then show ?case
    using closed_perform_events [OF Cons.prems, of c]
    by (simp add: case_prod_beta)
qed

section \<open>The invariant\<close>

lemma topic_inv_newTopic: "topic_inv (newTopic n)"
  by (simp add: topic_inv_def newTopic_def)

lemma topic_inv_subscribe: "topic_inv t \<Longrightarrow> topic_inv (snd (topic_subscribe h onc each t))"
  by (simp add: topic_inv_def topic_subscribe_def)

lemma topic_inv_unsubscribe: "topic_inv (snd (topic_unsubscribe t)) = topic_inv t"
  by (simp add: topic_inv_def topic_unsubscribe_def)

lemma topic_inv_close: "topic_inv (snd (topic_close t)) = topic_inv t"
  by (simp add: topic_inv_def topic_close_def)

lemma topic_inv_publish: "topic_inv t \<Longrightarrow> topic_inv (snd (snd (topic_publish args try_flag t)))"
  by (simp add: topic_inv_def topic_publish_eq)

lemma set_update_cases:
  "(k', v') \<in> set (AList.update k v al) \<Longrightarrow> (k', v') = (k, v) \<or> (k', v') \<in> set al"
  by (induction al) (auto split: if_splits)

lemma pubsub_inv_lookup: "pubsub_inv p \<Longrightarrow> lookup p k = Some t \<Longrightarrow> topic_inv t"
  by (auto simp add: pubsub_inv_def list_all_iff dest: map_of_SomeD)

lemma pubsub_inv_update:
  "pubsub_inv p \<Longrightarrow> topic_inv t' \<Longrightarrow> pubsub_inv (p\<lparr>topics := AList.update tn t' (topics p)\<rparr>)"
  by (auto simp add: pubsub_inv_def list_all_iff dest: set_update_cases)

lemma inv_unsubscribe_each:
  "list_all (\<lambda>(k, t). topic_inv t) al \<Longrightarrow> list_all (\<lambda>(k, t). topic_inv t) (snd (unsubscribe_each al))"
  by (induction al) (auto simp add: topic_inv_def topic_unsubscribe_def split: prod.split)

lemma pubsub_inv_New: "pubsub_inv New"
  by (simp add: pubsub_inv_def New_def)

lemma pubsub_inv_subscribe: "pubsub_inv p \<Longrightarrow> pubsub_inv (snd (subscribe tn h onc each p))"
proof -
  assume inv: "pubsub_inv p"
  let ?t = "case lookup p tn of Some t0 \<Rightarrow> t0 | None \<Rightarrow> newTopic tn"
  have "topic_inv ?t"
    using inv by (auto simp add: topic_inv_newTopic split: option.split dest: pubsub_inv_lookup)
  then have "topic_inv (snd (topic_subscribe h onc each ?t))"
    by (rule topic_inv_subscribe)
  then show ?thesis
    using inv by (simp add: subscribe_def Let_def case_prod_beta pubsub_inv_update)
qed

lemma pubsub_inv_Unsubscribe: "pubsub_inv p \<Longrightarrow> pubsub_inv (snd (Unsubscribe tn p))"
  by (auto simp add: Unsubscribe_def case_prod_beta topic_inv_unsubscribe
      split: option.split intro!: pubsub_inv_update dest: pubsub_inv_lookup)

lemma pubsub_inv_CloseTopic: "pubsub_inv p \<Longrightarrow> pubsub_inv (snd (CloseTopic tn p))"
  by (auto simp add: CloseTopic_def case_prod_beta topic_inv_close
      split: option.split intro!: pubsub_inv_update dest: pubsub_inv_lookup)

lemma pubsub_inv_publish: "pubsub_inv p \<Longrightarrow> pubsub_inv (snd (snd (publish tn args try_flag p)))"
  by (auto simp add: publish_def case_prod_beta
      split: option.split intro!: pubsub_inv_update topic_inv_publish dest: pubsub_inv_lookup)

lemma pubsub_inv_UnsubscribeAll: "pubsub_inv p \<Longrightarrow> pubsub_inv (snd (UnsubscribeAll p))"
  using inv_unsubscribe_each [of "topics p"]
  by (simp add: UnsubscribeAll_def case_prod_beta pubsub_inv_def)

lemma pubsub_inv_Shutdown: "pubsub_inv p \<Longrightarrow> pubsub_inv (snd (Shutdown p))"
  using inv_unsubscribe_each [of "topics p"]
  by (simp add: Shutdown_def close_each_eq case_prod_beta pubsub_inv_def)

lemma pubsub_inv_perform: "pubsub_inv p \<Longrightarrow> pubsub_inv (snd (snd (perform c p)))"
  by (cases c)
     (simp_all add: Subscribe_def SubscribeOnce_def SubscribeOnceEach_def Publish_def
        TryPublish_def case_prod_beta pubsub_inv_subscribe pubsub_inv_Unsubscribe
        pubsub_inv_CloseTopic pubsub_inv_publish pubsub_inv_UnsubscribeAll pubsub_inv_Shutdown)

lemma pubsub_inv_run: "pubsub_inv p \<Longrightarrow> pubsub_inv (snd (run cs p))"
  by (induction cs arbitrary: p) (simp_all add: case_prod_beta pubsub_inv_perform)

section \<open>Unfolding the model on concrete inputs\<close>

lemmas eval_defs =
  New_def newTopic_def Subscribe_def SubscribeOnce_def SubscribeOnceEach_def subscribe_def
  topic_subscribe_def Unsubscribe_def topic_unsubscribe_def UnsubscribeAll_def
  Publish_def TryPublish_def publish_def topic_publish_def loop_body_def
  CloseTopic_def topic_close_def Shutdown_def Let_def

section \<open>The claims\<close>






text \<open>
  C3: \<^verbatim>\<open>Publish\<close> and \<^verbatim>\<open>TryPublish\<close> are the same function of the topic name, the
  arguments and the state: they return the same error, call the same handlers in the
  same order and leave the same state; and the error they return is \<^verbatim>\<open>nil\<close>.
\<close>

theorem Publish_TryPublish_equal:
  "Publish tn args p = TryPublish tn args p \<and> fst (Publish tn args p) = None
     \<and> fst (TryPublish tn args p) = None"
  by (simp add: Publish_def TryPublish_def publish_def topic_publish_eq split: option.split)

text \<open>
  C4: let the topic \<open>tn\<close> be open with \<^verbatim>\<open>once\<close> set and \<^verbatim>\<open>onceEach\<close> not set, which is the
  mode that \<^verbatim>\<open>SubscribeOnce\<close> sets up (last conjunct). Then a publish call calls every
  handler of the collection, in order; when it returns, the topic is as before but for
  its collection, which is empty, so the topic is still open; a second publish call calls
  no handler; and a subscribe call after the first publish registers its handler, which
  the next publish call then calls.
\<close>

theorem once_total_cleared_by_first_publish:
  assumes "lookup p tn = Some t" and "\<not> closed t" and "once t" and "\<not> onceEach t"
  shows "fst (snd (publish tn args try_flag p)) = map (\<lambda>h. Invoke h args) (handlers t)
       \<and> lookup (snd (snd (publish tn args try_flag p))) tn = Some (t\<lparr>handlers := []\<rparr>)
       \<and> fst (snd (publish tn args' try_flag' (snd (snd (publish tn args try_flag p))))) = []
       \<and> lookup (snd (subscribe tn h onc each (snd (snd (publish tn args try_flag p))))) tn
           = Some (t\<lparr>handlers := [h], once := onc, onceEach := each\<rparr>)
       \<and> fst (snd (publish tn args' try_flag'
             (snd (subscribe tn h onc each (snd (snd (publish tn args try_flag p)))))))
           = [Invoke h args']
       \<and> ((case lookup q tn of Some u \<Rightarrow> \<not> closed u | None \<Rightarrow> True) \<longrightarrow>
            (\<exists>u. lookup (snd (SubscribeOnce tn h q)) tn = Some u
                 \<and> \<not> closed u \<and> once u \<and> \<not> onceEach u \<and> last (handlers u) = h \<and> handlers u \<noteq> []))"
proof -
  have l1: "lookup (snd (snd (publish tn args try_flag p))) tn = Some (t\<lparr>handlers := []\<rparr>)"
    using assms by (simp add: lookup_publish topic_publish_eq handlers_nil_triv)
  have "(case lookup q tn of Some u \<Rightarrow> \<not> closed u | None \<Rightarrow> True) \<longrightarrow>
            (\<exists>u. lookup (snd (SubscribeOnce tn h q)) tn = Some u
                 \<and> \<not> closed u \<and> once u \<and> \<not> onceEach u \<and> last (handlers u) = h \<and> handlers u \<noteq> [])"
    by (simp add: SubscribeOnce_def lookup_subscribe_same topic_subscribe_def newTopic_def
        split: option.split)
  then show ?thesis
    using assms l1
    by (simp add: publish_events lookup_subscribe_same topic_subscribe_def)
qed

text \<open>
  A handler subscribed with \<^verbatim>\<open>Subscribe\<close> and one with \<^verbatim>\<open>SubscribeOnce\<close>, then two publish calls,
  a new subscription and a third publish call.
\<close>

theorem once_total_cleared_by_first_publish_witness:
  "lookup (snd (run [Call_Subscribe ''t'' (Handler 1 None),
                      Call_SubscribeOnce ''t'' (Handler 2 None) :: nat call] New)) ''t''
     = Some \<lparr>name = ''t'', handlers = [Handler 1 None, Handler 2 None], once = True,
         onceEach = False, closed = False\<rparr>
   \<and> fst (run [Call_Publish ''t'' [7::nat], Call_TryPublish ''t'' [8],
              Call_Subscribe ''t'' (Handler 3 None), Call_Publish ''t'' [9]]
         (snd (run [Call_Subscribe ''t'' (Handler 1 None),
                    Call_SubscribeOnce ''t'' (Handler 2 None)] New)))
       = [(Call_Publish ''t'' [7], None, [Invoke (Handler 1 None) [7], Invoke (Handler 2 None) [7]]),
          (Call_TryPublish ''t'' [8], None, []),
          (Call_Subscribe ''t'' (Handler 3 None), None, []),
          (Call_Publish ''t'' [9], None, [Invoke (Handler 3 None) [9]])]"
  using once_total_cleared_by_first_publish
    [where p = "snd (run [Call_Subscribe ''t'' (Handler 1 None),
                      Call_SubscribeOnce ''t'' (Handler 2 None) :: nat call] New)"
       and tn = "''t''"
       and t = "\<lparr>name = ''t'', handlers = [Handler 1 None, Handler 2 None], once = True,
         onceEach = False, closed = False\<rparr>"
       and args = "[7::nat]" and try_flag = False and args' = "[8::nat]" and try_flag' = True
       and h = "Handler 3 None" and onc = False and each = False and q = New]
  by (simp add: eval_defs)

text \<open>
  C5: a closed topic has no handlers. This holds of a topic as \<^verbatim>\<open>newTopic\<close> makes it,
  each of the four topic operations keeps it, the empty registry has it of every topic,
  each of the nine public calls keeps it, and so it holds in every state that some
  sequence of calls reaches from \<^verbatim>\<open>New()\<close>.
\<close>

theorem closed_implies_no_handlers:
  "topic_inv (newTopic n)
   \<and> (topic_inv t \<longrightarrow>
        topic_inv (snd (topic_subscribe h onc each t))
        \<and> topic_inv (snd (topic_unsubscribe t))
        \<and> topic_inv (snd (snd (topic_publish args try_flag t)))
        \<and> topic_inv (snd (topic_close t)))
   \<and> pubsub_inv New
   \<and> (pubsub_inv p \<longrightarrow> pubsub_inv (snd (snd (perform c p))))
   \<and> pubsub_inv (snd (run cs New))
   \<and> (\<forall>u. lookup (snd (run cs New)) k = Some u \<longrightarrow> closed u \<longrightarrow> handlers u = [])"
proof -
  have reach: "pubsub_inv (snd (run cs New))"
    by (rule pubsub_inv_run [OF pubsub_inv_New])
  have "\<forall>u. lookup (snd (run cs New)) k = Some u \<longrightarrow> closed u \<longrightarrow> handlers u = []"
    using pubsub_inv_lookup [OF reach] by (auto simp add: topic_inv_def)
  then show ?thesis
    using reach
    by (simp add: topic_inv_newTopic topic_inv_subscribe topic_inv_unsubscribe
        topic_inv_publish topic_inv_close pubsub_inv_New pubsub_inv_perform)
qed

text \<open>
  Subscribing to a topic and closing it reaches a state with a closed topic.
\<close>

theorem closed_implies_no_handlers_witness:
  "pubsub_inv (snd (run [Call_Subscribe ''a'' (Handler 1 None), Call_CloseTopic ''a'' :: nat call] New))
   \<and> (\<exists>u. lookup (snd (run [Call_Subscribe ''a'' (Handler 1 None), Call_CloseTopic ''a'' :: nat call] New)) ''a'' = Some u
          \<and> closed u \<and> handlers u = [])"
  using closed_implies_no_handlers
    [of "''a''" "newTopic ''a''" "Handler 1 None" False False "[]::nat list" False New
        "Call_CloseTopic ''a''" "[Call_Subscribe ''a'' (Handler 1 None), Call_CloseTopic ''a'']" "''a''"]
  by (simp add: eval_defs)

text \<open>
  C6 as it is stated covers every topic name. On a name that has no entry in the registry
  \<^verbatim>\<open>Unsubscribe\<close> returns at once and makes no entry, so a later \<^verbatim>\<open>Subscribe\<close> makes an open
  topic, and \<^verbatim>\<open>Publish\<close> calls its handler.
\<close>

theorem Unsubscribe_then_Subscribe_counterexample:
  "run [Call_Unsubscribe ''t'', Call_Subscribe ''t'' (Handler 1 None), Call_Publish ''t'' [7::nat]] New
   = ([(Call_Unsubscribe ''t'', None, []),
       (Call_Subscribe ''t'' (Handler 1 None), None, []),
       (Call_Publish ''t'' [7], None, [Invoke (Handler 1 None) [7]])],
      \<lparr>topics = [(''t'', \<lparr>name = ''t'', handlers = [Handler 1 None], once = False,
          onceEach = False, closed = False\<rparr>)]\<rparr>)"
  by (simp add: eval_defs)

text \<open>
  C6, amended: let the name \<open>tn\<close> have been subscribed to by one of the calls \<open>pre\<close> made
  since \<^verbatim>\<open>New()\<close>, and let \<^verbatim>\<open>Unsubscribe\<close> or \<^verbatim>\<open>CloseTopic\<close> be called on it next. Then, whatever
  calls \<open>cs\<close> follow, no publish call on \<open>tn\<close> among them calls a handler, \<^verbatim>\<open>Publish\<close> and
  \<^verbatim>\<open>TryPublish\<close> on \<open>tn\<close> after them call no handler, and each of the three subscribe calls on
  \<open>tn\<close> after them leaves the topic closed and without handlers.
\<close>

theorem closed_topic_is_never_revived:
  assumes "\<exists>c\<in>set pre. subscribes_to tn c"
      and "pa = snd (Unsubscribe tn (snd (run pre New))) \<or> pa = snd (CloseTopic tn (snd (run pre New)))"
  shows "fst (snd (Publish tn args (snd (run cs pa)))) = []
       \<and> fst (snd (TryPublish tn args (snd (run cs pa)))) = []
       \<and> (\<forall>(c, e, evs)\<in>set (fst (run cs pa)). publishes_on tn c \<longrightarrow> evs = [])
       \<and> (\<exists>u. lookup (snd (Subscribe tn h (snd (run cs pa)))) tn = Some u \<and> closed u \<and> handlers u = [])
       \<and> (\<exists>u. lookup (snd (SubscribeOnce tn h (snd (run cs pa)))) tn = Some u \<and> closed u \<and> handlers u = [])
       \<and> (\<exists>u. lookup (snd (SubscribeOnceEach tn h (snd (run cs pa)))) tn = Some u \<and> closed u \<and> handlers u = [])"
proof -
  let ?p = "snd (run pre New)"
  have "lookup ?p tn \<noteq> None"
    using assms(1) by (simp add: lookup_run_present)
  then obtain t where t: "lookup ?p tn = Some t"
    by blast
  have "pubsub_inv ?p"
    by (rule pubsub_inv_run [OF pubsub_inv_New])
  then have inv: "topic_inv t"
    using t by (rule pubsub_inv_lookup)
  let ?u = "snd (topic_unsubscribe t)"
  have u: "closed ?u \<and> handlers ?u = []"
    using inv by (simp add: topic_inv_def topic_unsubscribe_def)
  have "lookup pa tn = Some ?u"
    using assms(2) t by (auto simp add: lookup_Unsubscribe lookup_CloseTopic)
  then have l2: "lookup (snd (run cs pa)) tn = Some ?u"
    and log: "\<forall>(c, e, evs)\<in>set (fst (run cs pa)). publishes_on tn c \<longrightarrow> evs = []"
    using u by (simp_all add: lookup_run_closed closed_run_events)
  show ?thesis
    using l2 u log
    by (simp add: Publish_def TryPublish_def publish_events Subscribe_def SubscribeOnce_def
        SubscribeOnceEach_def lookup_subscribe_same topic_subscribe_def)
qed

text \<open>
  A topic subscribed to and unsubscribed, then a new subscription and a publish call.
\<close>

theorem closed_topic_is_never_revived_witness:
  "subscribes_to ''t'' (Call_Subscribe ''t'' (Handler 1 None) :: nat call)
   \<and> fst (run [Call_Subscribe ''t'' (Handler 2 None), Call_Publish ''t'' [7::nat]]
        (snd (Unsubscribe ''t'' (snd (run [Call_Subscribe ''t'' (Handler 1 None) :: nat call] New)))))
      = [(Call_Subscribe ''t'' (Handler 2 None), None, []), (Call_Publish ''t'' [7], None, [])]
   \<and> lookup (snd (Subscribe ''t'' (Handler 2 None)
        (snd (Unsubscribe ''t'' (snd (run [Call_Subscribe ''t'' (Handler 1 None) :: nat call] New)))))) ''t''
      = Some \<lparr>name = ''t'', handlers = [], once = False, onceEach = False, closed = True\<rparr>"
  using closed_topic_is_never_revived
    [where pre = "[Call_Subscribe ''t'' (Handler 1 None) :: nat call]" and tn = "''t''"
       and pa = "snd (Unsubscribe ''t'' (snd (run [Call_Subscribe ''t'' (Handler 1 None) :: nat call] New)))"
       and cs = "[Call_Subscribe ''t'' (Handler 2 None), Call_Publish ''t'' [7::nat]]"
       and args = "[7::nat]" and h = "Handler 2 None"]
  by (simp add: eval_defs)

text \<open>
  C7: when no call made so far has subscribed to the name \<open>tn\<close>, each of \<^verbatim>\<open>Publish\<close>,
  \<^verbatim>\<open>TryPublish\<close>, \<^verbatim>\<open>Unsubscribe\<close> and \<^verbatim>\<open>CloseTopic\<close> on \<open>tn\<close> returns \<^verbatim>\<open>nil\<close>, calls no handler
  and returns the registry it was given: no entry is made and none is changed.
\<close>

theorem never_subscribed_no_effect:
  assumes "\<forall>c\<in>set pre. \<not> subscribes_to tn c"
  shows "Publish tn args (snd (run pre New)) = (None, [], snd (run pre New))
       \<and> TryPublish tn args (snd (run pre New)) = (None, [], snd (run pre New))
       \<and> Unsubscribe tn (snd (run pre New)) = (None, snd (run pre New))
       \<and> CloseTopic tn (snd (run pre New)) = (None, snd (run pre New))"
proof -
  have "lookup New tn = None"
    by (simp add: New_def)
  then have "lookup (snd (run pre New)) tn = None"
    using assms by (rule lookup_run_absent)
  then show ?thesis
    by (simp add: Publish_def TryPublish_def publish_def Unsubscribe_def CloseTopic_def)
qed

text \<open>
  The name \<open>b\<close> after a subscription and a publish on \<open>a\<close>.
\<close>

theorem never_subscribed_no_effect_witness:
  "\<not> subscribes_to ''b'' (Call_Subscribe ''a'' (Handler 1 None) :: nat call)
   \<and> \<not> subscribes_to ''b'' (Call_Publish ''a'' [7::nat])
   \<and> Publish ''b'' [7::nat] (snd (run [Call_Subscribe ''a'' (Handler 1 None), Call_Publish ''a'' [7]] New))
       = (None, [], \<lparr>topics = [(''a'', \<lparr>name = ''a'', handlers = [Handler 1 None], once = False,
            onceEach = False, closed = False\<rparr>)]\<rparr>)
   \<and> CloseTopic ''b'' (snd (run [Call_Subscribe ''a'' (Handler 1 None), Call_Publish ''a'' [7::nat]] New))
       = (None, \<lparr>topics = [(''a'', \<lparr>name = ''a'', handlers = [Handler 1 None], once = False,
            onceEach = False, closed = False\<rparr>)]\<rparr>)"
  using never_subscribed_no_effect
    [of "[Call_Subscribe ''a'' (Handler 1 None), Call_Publish ''a'' [7::nat]]" "''b''" "[7]"]
  by (simp add: eval_defs)



text \<open>
  C9: let \<open>t\<close> be the topic a subscribe call on \<open>tn\<close> works on (the one stored under \<open>tn\<close>, or
  a new one when there is none), and let it be open. Then the call stores under \<open>tn\<close> the
  topic \<open>t\<close> with the handler appended and with both mode flags replaced by those of the
  call: \<open>(False, False)\<close> for \<^verbatim>\<open>Subscribe\<close>, \<open>(True, False)\<close> for \<^verbatim>\<open>SubscribeOnce\<close> and
  \<open>(True, True)\<close> for \<^verbatim>\<open>SubscribeOnceEach\<close>. Other names are not touched. The new mode governs
  the handlers registered before as well: the next publish call leaves the collection
  empty when the call set \<^verbatim>\<open>once\<close>, and whole otherwise, whatever the flags of \<open>t\<close> were.
\<close>

theorem subscribe_appends_and_sets_mode:
  assumes "t = (case lookup p tn of Some t0 \<Rightarrow> t0 | None \<Rightarrow> newTopic tn)" and "\<not> closed t"
  shows "lookup (snd (subscribe tn h onc each p)) tn
           = Some (t\<lparr>handlers := handlers t @ [h], once := onc, onceEach := each\<rparr>)
       \<and> lookup (snd (Subscribe tn h p)) tn
           = Some (t\<lparr>handlers := handlers t @ [h], once := False, onceEach := False\<rparr>)
       \<and> lookup (snd (SubscribeOnce tn h p)) tn
           = Some (t\<lparr>handlers := handlers t @ [h], once := True, onceEach := False\<rparr>)
       \<and> lookup (snd (SubscribeOnceEach tn h p)) tn
           = Some (t\<lparr>handlers := handlers t @ [h], once := True, onceEach := True\<rparr>)
       \<and> (\<forall>k. k \<noteq> tn \<longrightarrow> lookup (snd (subscribe tn h onc each p)) k = lookup p k)
       \<and> map_option handlers
           (lookup (snd (snd (publish tn args try_flag (snd (subscribe tn h onc each p))))) tn)
           = Some (if onc then [] else handlers t @ [h])"
  using assms
  by (simp add: Subscribe_def SubscribeOnce_def SubscribeOnceEach_def lookup_subscribe
      lookup_publish topic_subscribe_def topic_publish_eq)

text \<open>
  \<^verbatim>\<open>Subscribe\<close> then \<^verbatim>\<open>SubscribeOnce\<close> on one topic: a publish call removes both handlers.
\<close>

theorem subscribe_appends_and_sets_mode_witness:
  "\<not> closed (case lookup (snd (Subscribe ''t'' (Handler 1 None) New)) ''t'' of
        Some t0 \<Rightarrow> t0 | None \<Rightarrow> newTopic ''t'')
   \<and> lookup (snd (SubscribeOnce ''t'' (Handler 2 None) (snd (Subscribe ''t'' (Handler 1 None) New)))) ''t''
       = Some \<lparr>name = ''t'', handlers = [Handler 1 None, Handler 2 None], once = True,
           onceEach = False, closed = False\<rparr>
   \<and> map_option handlers (lookup (snd (snd (publish ''t'' [7::nat] False
        (snd (subscribe ''t'' (Handler 2 None) True False
           (snd (Subscribe ''t'' (Handler 1 None) New))))))) ''t'') = Some []"
  using subscribe_appends_and_sets_mode
    [where p = "snd (Subscribe ''t'' (Handler 1 None) New)" and tn = "''t''"
       and t = "\<lparr>name = ''t'', handlers = [Handler 1 None], once = False,
           onceEach = False, closed = False\<rparr>"
       and h = "Handler 2 None" and onc = True and each = False and args = "[7::nat]"
       and try_flag = False]
  by (simp add: eval_defs)

text \<open>
  C10: on a closed topic each of the three subscribe calls returns \<^verbatim>\<open>nil\<close> and the
  registry it was given, so nothing is registered. \<^verbatim>\<open>nil\<close> is also what the three calls
  return in any other state \<open>q\<close>, where the subscription may take effect: the result does
  not tell the two apart.
\<close>

theorem subscribe_on_closed_topic_silent:
  assumes "lookup p tn = Some t" and "closed t"
  shows "Subscribe tn h p = (None, p)
       \<and> SubscribeOnce tn h p = (None, p)
       \<and> SubscribeOnceEach tn h p = (None, p)
       \<and> fst (Subscribe tn h q) = None
       \<and> fst (SubscribeOnce tn h q) = None
       \<and> fst (SubscribeOnceEach tn h q) = None"
  using assms
  by (simp add: Subscribe_def SubscribeOnce_def SubscribeOnceEach_def subscribe_fst)
     (simp add: subscribe_def topic_subscribe_def update_triv)

text \<open>
  The topic \<open>a\<close> after it was subscribed to and closed.
\<close>

theorem subscribe_on_closed_topic_silent_witness:
  "lookup (snd (run [Call_Subscribe ''a'' (Handler 1 None), Call_CloseTopic ''a'' :: nat call] New)) ''a''
     = Some \<lparr>name = ''a'', handlers = [], once = False, onceEach = False, closed = True\<rparr>
   \<and> SubscribeOnce ''a'' (Handler 2 None)
         (snd (run [Call_Subscribe ''a'' (Handler 1 None), Call_CloseTopic ''a'' :: nat call] New))
       = (None, \<lparr>topics = [(''a'', \<lparr>name = ''a'', handlers = [], once = False,
            onceEach = False, closed = True\<rparr>)]\<rparr>)
   \<and> fst (SubscribeOnce ''a'' (Handler 2 None) New) = None"
  using subscribe_on_closed_topic_silent
    [of "snd (run [Call_Subscribe ''a'' (Handler 1 None), Call_CloseTopic ''a'' :: nat call] New)"
        "''a''" "\<lparr>name = ''a'', handlers = [], once = False, onceEach = False, closed = True\<rparr>"
        "Handler 2 None" New]
  by (simp add: eval_defs)

end
